theory Spec2Isabelle
  imports Main
begin

section \<open>Data model\<close>

text \<open>
  Python strings are modelled as \<open>string\<close>; a character stands for the code point with
  the same number (0 to 255).  Exceptions are values of \<open>error\<close>; a computation returns
  the list of events it caused (log records and calls to external collaborators, in
  program order) together with either the raised error (\<open>Inl\<close>) or its value (\<open>Inr\<close>).
\<close>

datatype error = KeyError string | OSError string | BackendError string

datatype role = General | Coding | Vision | Router_model

text \<open>A \<open>ChatOllama\<close> handle: the attribute of the router that holds it and its model name.\<close>

datatype client = Client role string

text \<open>
  \<open>HumanMessage(content=text)\<close> and
  \<open>HumanMessage(content=[{text part}, {image_url part}])\<close>.
\<close>

datatype message = Human_text string | Human_parts string string

text \<open>A streamed chunk either has a \<open>content\<close> attribute or is a plain string.\<close>

datatype chunk = Content_chunk string | Plain_chunk string

datatype level = Debug | Info | Warning | Error

text \<open>The summary record, with the keys \<open>model_type\<close>, \<open>input_text\<close>, \<open>image_path\<close>, \<open>response\<close>.\<close>

record log_obj =
  log_model_type :: string
  log_input_text :: string
  log_image_path :: "string option"
  log_response :: string

text \<open>
  The argument of a logger call: an f-string, kept as its literal template (each
  interpolation written \<open>{}\<close>) with the interpolated values, or \<open>json.dumps(log_obj)\<close>.
\<close>

datatype arg = A_str string | A_opt "string option" | A_err error | A_chunk chunk

datatype log_msg = Fmt string "arg list" | Json log_obj

datatype event =
    Log level log_msg
  | New_client string
  | Read_file string
  | Invoke client "message list"
  | Stream client "message list"
  | Makedirs string
  | Copy_file string string
  | Print log_msg

type_synonym 'a result = "event list \<times> (error + 'a)"

text \<open>
  The external collaborators: the \<open>ChatOllama\<close> constructor (\<open>None\<close> when it succeeds),
  \<open>open(path, "rb").read()\<close>, \<open>base64.b64encode(...).decode("utf-8")\<close>, a client's
  \<open>invoke\<close>, and a client's \<open>stream\<close> (\<open>open_stream\<close>): the chunks its iterator produces and how the
  iterator ends (\<open>None\<close>: exhausted; \<open>Some e\<close>: it raises \<open>e\<close> after the chunks).
\<close>

record backend =
  new_client :: "string \<Rightarrow> error option"
  read_file :: "string \<Rightarrow> error + string"
  b64encode :: "string \<Rightarrow> string"
  invoke :: "client \<Rightarrow> message list \<Rightarrow> error + string"
  open_stream :: "client \<Rightarrow> message list \<Rightarrow> error + chunk list \<times> error option"

record model_router =
  general :: client
  coding :: client
  vision :: client
  router_model :: client

section \<open>Router construction\<close>

definition DEFAULTS :: "string \<rightharpoonup> string" where
  "DEFAULTS = [''MODEL_GENERAL'' \<mapsto> ''llama3.2:3b'',
               ''MODEL_CODING'' \<mapsto> ''qwen2.5-coder:3b'',
               ''MODEL_VISION'' \<mapsto> ''llava-phi3'']"

text \<open>\<open>cfg.get(key, DEFAULTS[key])\<close> for a key of \<open>DEFAULTS\<close>.\<close>

definition cfg_get :: "(string \<rightharpoonup> string) \<Rightarrow> string \<Rightarrow> string" where
  "cfg_get cfg key = (case cfg key of Some v \<Rightarrow> v | None \<Rightarrow> the (DEFAULTS key))"

text \<open>\<open>cfg[key]\<close>.\<close>

definition cfg_item :: "(string \<rightharpoonup> string) \<Rightarrow> string \<Rightarrow> error + string" where
  "cfg_item cfg key = (case cfg key of Some v \<Rightarrow> Inr v | None \<Rightarrow> Inl (KeyError key))"

text \<open>
  The \<open>try\<close> block of \<open>_load_models\<close>: the three role bindings are constructed in order;
  the first constructor that raises ends the block, the error is logged and re-raised.
\<close>

fun new_clients :: "backend \<Rightarrow> string list \<Rightarrow> event list \<times> error option" where
  "new_clients b [] = ([], None)"
| "new_clients b (m # ms) =
     (case new_client b m of
        Some e \<Rightarrow> ([New_client m], Some e)
      | None \<Rightarrow> (let (evs, r) = new_clients b ms in (New_client m # evs, r)))"

definition load_models :: "backend \<Rightarrow> (string \<rightharpoonup> string) \<Rightarrow> model_router result" where
  "load_models b cfg =
    (let general_model = cfg_get cfg ''MODEL_GENERAL'';
         coding_model = cfg_get cfg ''MODEL_CODING'';
         vision_model = cfg_get cfg ''MODEL_VISION'';
         (evs, r) = new_clients b [general_model, coding_model, vision_model]
     in case r of
          Some e \<Rightarrow> (evs @ [Log Error (Fmt ''Failed to load models: {}'' [A_err e])], Inl e)
        | None \<Rightarrow>
           (let evs1 = evs @ [Log Info (Fmt ''Models loaded: general={}, coding={}, vision={}.''
                                [A_str general_model, A_str coding_model, A_str vision_model])]
            in case cfg_item cfg ''MODEL_GENERAL'' of
                 Inl e \<Rightarrow> (evs1, Inl e)
               | Inr m \<Rightarrow>
                  (case new_client b m of
                     Some e \<Rightarrow> (evs1 @ [New_client m], Inl e)
                   | None \<Rightarrow>
                      (evs1 @ [New_client m],
                       Inr \<lparr>general = Client General general_model,
                            coding = Client Coding coding_model,
                            vision = Client Vision vision_model,
                            router_model = Client Router_model m\<rparr>))))"

section \<open>The exception-and-log discipline\<close>

definition return :: "'a \<Rightarrow> 'a result" where
  "return x = ([], Inr x)"

definition raise :: "error \<Rightarrow> 'a result" where
  "raise e = ([], Inl e)"

text \<open>Sequencing: the events of both parts in order; an error of the first part skips the second.\<close>

definition and_then :: "'a result \<Rightarrow> ('a \<Rightarrow> 'b result) \<Rightarrow> 'b result" where
  "and_then m f =
     (case m of
        (evs, Inl e) \<Rightarrow> (evs, Inl e)
      | (evs, Inr x) \<Rightarrow> (let (evs', r) = f x in (evs @ evs', r)))"

text \<open>\<open>logger.<level>(msg)\<close>\<close>

definition log :: "level \<Rightarrow> log_msg \<Rightarrow> unit result" where
  "log lvl msg = ([Log lvl msg], Inr ())"

text \<open>
  \<open>try: m  except Exception as e: logger.error(msg e); raise\<close>: the error is logged
  and re-raised unchanged.
\<close>

definition try_log_raise :: "'a result \<Rightarrow> (error \<Rightarrow> log_msg) \<Rightarrow> 'a result" where
  "try_log_raise m msg =
     (case m of
        (evs, Inl e) \<Rightarrow> (evs @ [Log Error (msg e)], Inl e)
      | (evs, Inr x) \<Rightarrow> (evs, Inr x))"

text \<open>A call of \<open>client.invoke(messages)\<close> and of \<open>client.stream(messages)\<close>.\<close>

definition call_invoke :: "backend \<Rightarrow> client \<Rightarrow> message list \<Rightarrow> string result" where
  "call_invoke b c msgs = ([Invoke c msgs], invoke b c msgs)"

definition call_stream ::
  "backend \<Rightarrow> client \<Rightarrow> message list \<Rightarrow> (chunk list \<times> error option) result" where
  "call_stream b c msgs = ([Stream c msgs], open_stream b c msgs)"

text \<open>Python truthiness of an optional string: neither \<open>None\<close> nor empty.\<close>

fun truthy :: "string option \<Rightarrow> bool" where
  "truthy None = False"
| "truthy (Some s) = (s \<noteq> [])"

section \<open>Character classes of Python strings (code points 0 to 255)\<close>

text \<open>\<open>\w\<close> of a \<open>str\<close> pattern: alphanumeric characters and the underscore.\<close>

definition is_word :: "char \<Rightarrow> bool" where
  "is_word c =
     (let n = (of_char c :: nat)
      in (48 \<le> n \<and> n \<le> 57) \<or> (65 \<le> n \<and> n \<le> 90) \<or> n = 95 \<or> (97 \<le> n \<and> n \<le> 122)
         \<or> n = 170 \<or> n = 178 \<or> n = 179 \<or> n = 181 \<or> n = 185 \<or> n = 186
         \<or> (188 \<le> n \<and> n \<le> 190) \<or> (192 \<le> n \<and> n \<le> 214)
         \<or> (216 \<le> n \<and> n \<le> 246) \<or> (248 \<le> n \<and> n \<le> 255))"

text \<open>\<open>str.isspace\<close>, the characters that \<open>str.strip()\<close> removes.\<close>

definition is_space :: "char \<Rightarrow> bool" where
  "is_space c =
     (let n = (of_char c :: nat)
      in (9 \<le> n \<and> n \<le> 13) \<or> (28 \<le> n \<and> n \<le> 32) \<or> n = 133 \<or> n = 160)"

definition lower_char :: "char \<Rightarrow> char" where
  "lower_char c =
     (let n = (of_char c :: nat)
      in if (65 \<le> n \<and> n \<le> 90) \<or> (192 \<le> n \<and> n \<le> 214) \<or> (216 \<le> n \<and> n \<le> 222)
         then char_of (n + 32) else c)"

definition lower :: "string \<Rightarrow> string" where
  "lower s = map lower_char s"

definition strip :: "string \<Rightarrow> string" where
  "strip s = rev (dropWhile is_space (rev (dropWhile is_space s)))"

section \<open>The classifier\<close>

text \<open>
  \<open>re.search(r'\b(general|coding|vision)\b', s)\<close>.  \<open>\b\<close> holds between two positions
  when exactly one of the characters before and after is a word character (the string's
  ends count as non-word).  The search tries each start position from the left, and at
  a position the alternatives in their order; the result is \<open>match.group(1)\<close>.
\<close>

definition LABELS :: "string list" where
  "LABELS = [''general'', ''coding'', ''vision'']"

definition word_boundary :: "char option \<Rightarrow> string \<Rightarrow> bool" where
  "word_boundary prev rest =
     ((case prev of None \<Rightarrow> False | Some c \<Rightarrow> is_word c)
        \<noteq> (case rest of [] \<Rightarrow> False | c # _ \<Rightarrow> is_word c))"

fun match_alternatives :: "string list \<Rightarrow> string \<Rightarrow> string option" where
  "match_alternatives [] s = None"
| "match_alternatives (w # ws) s =
     (if take (length w) s = w \<and> word_boundary (Some (last w)) (drop (length w) s)
      then Some w else match_alternatives ws s)"

definition match_at :: "char option \<Rightarrow> string \<Rightarrow> string option" where
  "match_at prev s = (if word_boundary prev s then match_alternatives LABELS s else None)"

fun re_search :: "char option \<Rightarrow> string \<Rightarrow> string option" where
  "re_search prev [] = match_at prev []"
| "re_search prev (c # cs) =
     (case match_at prev (c # cs) of
        Some w \<Rightarrow> Some w
      | None \<Rightarrow> re_search (Some c) cs)"

definition classify_prompt :: "string \<Rightarrow> string" where
  "classify_prompt input_text =
     ''Classify the following input into one of: general, coding, vision:'' @ [CHR 0x0A] @ input_text"

definition classify :: "backend \<Rightarrow> model_router \<Rightarrow> string \<Rightarrow> string result" where
  "classify b r input_text =
     and_then (log Debug (Fmt ''Classifying input: {}'' [A_str input_text])) (\<lambda>_.
     and_then (call_invoke b (router_model r) [Human_text (classify_prompt input_text)]) (\<lambda>result.
       case re_search None (lower result) of
         Some label \<Rightarrow>
           and_then (log Info (Fmt ''Input classified as: {}'' [A_str label])) (\<lambda>_.
           return label)
       | None \<Rightarrow>
           and_then (log Warning (Fmt ''Classifier returned unexpected result: {}'' [A_str result])) (\<lambda>_.
           return (lower (strip result)))))"

text \<open>
  The specification's reading of the classifier: \<open>w\<close> occurs in \<open>s\<close> at position \<open>i\<close>
  as a whole word when it is not preceded and not followed by a word character.
\<close>

definition whole_word_at :: "string \<Rightarrow> nat \<Rightarrow> string \<Rightarrow> bool" where
  "whole_word_at s i w =
     (take (length w) (drop i s) = w
      \<and> (i = 0 \<or> \<not> is_word (s ! (i - 1)))
      \<and> (length s \<le> i + length w \<or> \<not> is_word (s ! (i + length w))))"

text \<open>The character before position \<open>i\<close> of \<open>s\<close>, when \<open>prev\<close> precedes \<open>s\<close>.\<close>

definition before :: "char option \<Rightarrow> string \<Rightarrow> nat \<Rightarrow> char option" where
  "before prev s i = (if i = 0 then prev else Some (s ! (i - 1)))"

section \<open>Synchronous dispatch\<close>

definition encode_image_to_base64 :: "backend \<Rightarrow> string \<Rightarrow> string result" where
  "encode_image_to_base64 b path =
     try_log_raise
       (and_then ([Read_file path], read_file b path) (\<lambda>bytes.
        and_then (log Debug (Fmt ''Encoded image {} to base64.'' [A_str path])) (\<lambda>_.
        return (b64encode b bytes))))
       (\<lambda>e. Fmt ''Failed to encode image {}: {}'' [A_str path, A_err e])"

definition vision_message :: "string \<Rightarrow> string \<Rightarrow> message" where
  "vision_message text image_base64 = Human_parts text (''data:image/png;base64,'' @ image_base64)"

definition route ::
  "backend \<Rightarrow> model_router \<Rightarrow> string \<Rightarrow> string option \<Rightarrow> (string \<times> string) result" where
  "route b r text image_path =
     (if truthy image_path then
        and_then (log Info (Fmt ''Image input detected: {}'' [A_opt image_path])) (\<lambda>_.
        try_log_raise
          (and_then (encode_image_to_base64 b (the image_path)) (\<lambda>image_base64.
           and_then (call_invoke b (vision r) [vision_message text image_base64]) (\<lambda>result.
           and_then (log Info (Fmt ''Vision model invoked successfully.'' [])) (\<lambda>_.
           return (''vision'', result)))))
          (\<lambda>e. Fmt ''Vision model invocation failed: {}'' [A_err e]))
      else
        and_then (log Info (Fmt ''Text input: {}'' [A_str text])) (\<lambda>_.
        try_log_raise
          (and_then (classify b r text) (\<lambda>label.
           let (model, model_type) =
                 (if label = ''coding'' then (coding r, ''coding'') else (general r, ''general''))
           in and_then (call_invoke b model [Human_text text]) (\<lambda>result.
              and_then (log Info (Fmt ''Model '{}' invoked successfully.'' [A_str model_type])) (\<lambda>_.
              return (model_type, result)))))
          (\<lambda>e. Fmt ''Text model invocation failed: {}'' [A_err e])))"

section \<open>Streaming dispatch\<close>

text \<open>
  A generator, as the consumer sees it: resumed, it runs (causing events) up to its next
  \<open>yield\<close>, or up to its end, or up to an exception that leaves it.
\<close>

datatype 'a gen =
    Yield "event list" 'a "'a gen"
  | Return "event list"
  | Raise "event list" error

text \<open>\<open>chunk.content if hasattr(chunk, "content") else chunk\<close>\<close>

fun chunk_text :: "chunk \<Rightarrow> string" where
  "chunk_text (Content_chunk s) = s"
| "chunk_text (Plain_chunk s) = s"

text \<open>The inner generator of \<open>stream_route\<close>, over the backend's iterator.\<close>

fun stream_with_type :: "chunk list \<Rightarrow> error option \<Rightarrow> string gen" where
  "stream_with_type [] None = Return []"
| "stream_with_type [] (Some e) = Raise [] e"
| "stream_with_type (c # cs) ending =
     Yield [Log Debug (Fmt ''Stream chunk: {}'' [A_chunk c])] (chunk_text c)
       (stream_with_type cs ending)"

definition stream_route ::
  "backend \<Rightarrow> model_router \<Rightarrow> string \<Rightarrow> string option \<Rightarrow> (string \<times> string gen) result" where
  "stream_route b r text image_path =
     and_then
       (if truthy image_path then
          and_then (log Info (Fmt ''Image input detected: {}'' [A_opt image_path])) (\<lambda>_.
          try_log_raise
            (and_then (encode_image_to_base64 b (the image_path)) (\<lambda>image_base64.
             and_then (call_stream b (vision r) [vision_message text image_base64]) (\<lambda>strm.
             and_then (log Info (Fmt ''Vision model streaming started.'' [])) (\<lambda>_.
             return (''vision'', strm)))))
            (\<lambda>e. Fmt ''Vision model streaming failed: {}'' [A_err e]))
        else
          and_then (log Info (Fmt ''Text input: {}'' [A_str text])) (\<lambda>_.
          try_log_raise
            (and_then (classify b r text) (\<lambda>label.
             let (model, model_type) =
                   (if label = ''coding'' then (coding r, ''coding'') else (general r, ''general''))
             in and_then (call_stream b model [Human_text text]) (\<lambda>strm.
                and_then (log Info (Fmt ''Model '{}' streaming started.'' [A_str model_type])) (\<lambda>_.
                return (model_type, strm)))))
            (\<lambda>e. Fmt ''Text model streaming failed: {}'' [A_err e])))
       (\<lambda>(model_type, (chunks, ending)). return (model_type, stream_with_type chunks ending))"

text \<open>
  The consumer.  \<open>pull k g\<close> calls \<open>next\<close> on the generator \<open>k\<close> times (fewer if it ends
  or raises first) and then leaves it; \<open>drain g\<close> is the \<open>for\<close> loop that runs it to its
  end.  Both give the events caused, the fragments received, and the state it is left in.
\<close>

datatype outcome = Suspended | Exhausted | Raised error

fun pull :: "nat \<Rightarrow> 'a gen \<Rightarrow> event list \<times> 'a list \<times> outcome" where
  "pull 0 g = ([], [], Suspended)"
| "pull (Suc k) (Yield evs x g) = (let (evs', xs, st) = pull k g in (evs @ evs', x # xs, st))"
| "pull (Suc k) (Return evs) = (evs, [], Exhausted)"
| "pull (Suc k) (Raise evs e) = (evs, [], Raised e)"

fun drain :: "'a gen \<Rightarrow> event list \<times> 'a list \<times> outcome" where
  "drain (Yield evs x g) = (let (evs', xs, st) = drain g in (evs @ evs', x # xs, st))"
| "drain (Return evs) = (evs, [], Exhausted)"
| "drain (Raise evs e) = (evs, [], Raised e)"

section \<open>The inference service\<close>

definition run :: "backend \<Rightarrow> model_router \<Rightarrow> string \<Rightarrow> string option \<Rightarrow> string result" where
  "run b r text image_path =
     and_then (log Info (Fmt ''Running inference. Text: {}, Image: {}'' [A_str text, A_opt image_path])) (\<lambda>_.
     try_log_raise
       (and_then (route b r text image_path) (\<lambda>(model_type, result).
        and_then (log Info (Json \<lparr>log_model_type = model_type, log_input_text = text,
                                  log_image_path = image_path, log_response = result\<rparr>)) (\<lambda>_.
        and_then (log Info (Fmt ''Inference completed successfully.'' [])) (\<lambda>_.
        return result))))
       (\<lambda>e. Fmt ''Inference failed: {}'' [A_err e]))"

text \<open>
  The \<open>for\<close> loop of \<open>run_stream\<close> over the router's stream: \<open>pre\<close> are the events
  caused since the generator was last resumed, \<open>chunks\<close> the fragments collected so far.
\<close>

fun run_stream_loop ::
  "string \<Rightarrow> string \<Rightarrow> string option \<Rightarrow> event list \<Rightarrow> string list \<Rightarrow> string gen \<Rightarrow> string gen" where
  "run_stream_loop model_type text image_path pre chunks (Yield evs chunk g) =
     Yield (pre @ evs @ [Log Debug (Fmt ''Streamed chunk: {}'' [A_str chunk])]) chunk
       (run_stream_loop model_type text image_path [] (chunks @ [chunk]) g)"
| "run_stream_loop model_type text image_path pre chunks (Return evs) =
     Return (pre @ evs @
       [Log Info (Json \<lparr>log_model_type = model_type, log_input_text = text,
                         log_image_path = image_path, log_response = concat chunks\<rparr>)])"
| "run_stream_loop model_type text image_path pre chunks (Raise evs e) =
     Raise (pre @ evs @ [Log Error (Fmt ''Stream inference failed: {}'' [A_err e])]) e"

definition run_stream :: "backend \<Rightarrow> model_router \<Rightarrow> string \<Rightarrow> string option \<Rightarrow> string gen" where
  "run_stream b r text image_path =
     (let pre = [Log Info (Fmt ''Running stream inference. Text: {}, Image: {}''
                   [A_str text, A_opt image_path])]
      in case stream_route b r text image_path of
           (evs, Inl e) \<Rightarrow>
             Raise (pre @ evs @ [Log Error (Fmt ''Stream inference failed: {}'' [A_err e])]) e
         | (evs, Inr (model_type, strm)) \<Rightarrow>
             run_stream_loop model_type text image_path (pre @ evs) [] strm)"

text \<open>What a list of events says: the calls to backends, and the summary records.\<close>

fun is_call :: "event \<Rightarrow> bool" where
  "is_call (Invoke c msgs) = True"
| "is_call (Stream c msgs) = True"
| "is_call ev = False"

definition calls :: "event list \<Rightarrow> event list" where
  "calls evs = filter is_call evs"

fun summary_of :: "event \<Rightarrow> log_obj option" where
  "summary_of (Log lvl (Json obj)) = Some obj"
| "summary_of ev = None"

definition summaries :: "event list \<Rightarrow> log_obj list" where
  "summaries evs = List.map_filter summary_of evs"

section \<open>Image resolution\<close>

text \<open>
  The file system as \<open>handle_image\<close> uses it: \<open>os.path.isfile\<close>, \<open>os.path.abspath\<close>,
  and \<open>os.makedirs(..., exist_ok=True)\<close> and \<open>shutil.copy\<close>, which may raise.
\<close>

record filesystem =
  isfile :: "string \<Rightarrow> bool"
  abspath :: "string \<Rightarrow> string"
  makedirs :: "string \<Rightarrow> error option"
  copy :: "string \<Rightarrow> string \<Rightarrow> error option"

text \<open>\<open>os.path.basename\<close> and \<open>os.path.join\<close> of two components (POSIX).\<close>

definition basename :: "string \<Rightarrow> string" where
  "basename p = rev (takeWhile (\<lambda>c. c \<noteq> CHR ''/'') (rev p))"

definition path_join :: "string \<Rightarrow> string \<Rightarrow> string" where
  "path_join a p =
     (if take 1 p = ''/'' then p
      else if a = [] \<or> last a = CHR ''/'' then a @ p
      else a @ ''/'' @ p)"

definition TAG :: string where
  "TAG = ''<image>''"

text \<open>
  \<open>(.*?)<image>\<close> after an opening tag: the shortest run of characters other than
  newline that is followed by the closing tag; the result is the run and what follows
  the closing tag.
\<close>

fun tag_body :: "string \<Rightarrow> (string \<times> string) option" where
  "tag_body [] = None"
| "tag_body (c # cs) =
     (if take (length TAG) (c # cs) = TAG then Some ([], drop (length TAG) (c # cs))
      else if c = CHR 0x0A then None
      else map_option (\<lambda>(body, rest). (c # body, rest)) (tag_body cs))"

text \<open>
  \<open>re.search(r"<image>(.*?)<image>", s)\<close>: the leftmost match, as what precedes it,
  its group 1, and what follows it.
\<close>

fun tag_search :: "string \<Rightarrow> (string \<times> string \<times> string) option" where
  "tag_search [] = None"
| "tag_search (c # cs) =
     (case (if take (length TAG) (c # cs) = TAG then tag_body (drop (length TAG) (c # cs)) else None) of
        Some (body, rest) \<Rightarrow> Some ([], body, rest)
      | None \<Rightarrow> map_option (\<lambda>(pre, body, rest). (c # pre, body, rest)) (tag_search cs))"

lemma tag_body_shorter: "tag_body s = Some (body, rest) \<Longrightarrow> length rest < length s"
  by (induction s arbitrary: body) (auto simp: TAG_def split: if_splits)

lemma tag_search_shorter: "tag_search s = Some (pre, body, rest) \<Longrightarrow> length rest < length s"
proof (induction s arbitrary: pre)
  case Nil
  then show ?case by simp
next
  case (Cons c cs)
  show ?case
  proof (cases "if take (length TAG) (c # cs) = TAG then tag_body (drop (length TAG) (c # cs)) else None")
    case None
    with Cons.prems obtain pre' where "tag_search cs = Some (pre', body, rest)"
      by auto
    with Cons.IH show ?thesis by fastforce
  next
    case (Some br)
    with Cons.prems have "tag_body (drop (length TAG) (c # cs)) = Some (body, rest)"
      by (cases br) (auto split: if_splits)
    from tag_body_shorter [OF this] show ?thesis by (simp add: TAG_def)
  qed
qed

text \<open>\<open>re.sub(r"<image>.*?<image>", "", s)\<close>: every match, from the left, is removed.\<close>

function tag_sub :: "string \<Rightarrow> string" where
  "tag_sub s =
     (case tag_search s of
        None \<Rightarrow> s
      | Some (pre, body, rest) \<Rightarrow> pre @ tag_sub rest)"
  by pat_completeness auto
termination
  by (relation "measure length") (auto dest: tag_search_shorter)

text \<open>
  The block that both branches of \<open>handle_image\<close> run when the file exists: the file
  is copied into \<open>assets\<close> unless it is there already; the value is \<open>dest_path\<close>.
\<close>

definition copy_to_assets :: "filesystem \<Rightarrow> string \<Rightarrow> string result" where
  "copy_to_assets fs image_path =
     and_then ([Makedirs ''assets''],
               case makedirs fs ''assets'' of Some e \<Rightarrow> Inl e | None \<Rightarrow> Inr ()) (\<lambda>_.
       let filename = basename image_path;
           dest_path = path_join ''assets'' filename
       in if abspath fs image_path \<noteq> abspath fs dest_path then
            and_then ([Copy_file image_path dest_path],
                      case copy fs image_path dest_path of Some e \<Rightarrow> Inl e | None \<Rightarrow> Inr ()) (\<lambda>_.
            and_then (log Info (Fmt ''Copied image from {} to {}'' [A_str image_path, A_str dest_path])) (\<lambda>_.
            return dest_path))
          else
            and_then (log Info (Fmt ''Skipped copying: '{}' and '{}' are the same file.''
                                  [A_str image_path, A_str dest_path])) (\<lambda>_.
            return dest_path))"

text \<open>The not-found branch: the error is logged and printed (after a newline and an emoji).\<close>

definition not_found :: "string \<Rightarrow> unit result" where
  "not_found image_path =
     and_then (log Error (Fmt ''Image file '{}' not found.'' [A_str image_path])) (\<lambda>_.
     ([Print (Fmt ''Error: Image file '{}' not found.'' [A_str image_path])], Inr ()))"

definition handle_image ::
  "filesystem \<Rightarrow> string option \<Rightarrow> string option \<Rightarrow> (string option \<times> string option) result" where
  "handle_image fs input_text input_image =
     (if \<not> truthy input_image \<and> truthy input_text then
        (let text = the input_text; image_tag = tag_search text
         in and_then (log Debug (Fmt ''Image tag found: {}''
                        [A_opt (map_option (\<lambda>(pre, body, rest). TAG @ body @ TAG) image_tag)])) (\<lambda>_.
            case image_tag of
              Some (pre, body, rest) \<Rightarrow>
                (let image_path = strip body
                 in if isfile fs image_path then
                      and_then (copy_to_assets fs image_path) (\<lambda>dest_path.
                      return (Some (strip (tag_sub text)), Some dest_path))
                    else
                      and_then (not_found image_path) (\<lambda>_.
                      return (input_text, None)))
            | None \<Rightarrow> return (input_text, input_image)))
      else if truthy input_image then
        (let image_path = strip (the input_image)
         in if isfile fs image_path then
              and_then (copy_to_assets fs image_path) (\<lambda>dest_path.
              return (input_text, Some dest_path))
            else
              and_then (not_found image_path) (\<lambda>_.
              return (input_text, None)))
      else return (input_text, input_image))"

section \<open>A deterministic mock backend\<close>

text \<open>
  The router model answers every classification with \<open>answer\<close>; every role model
  answers \<open>Hello\<close>, streamed as the fragments \<open>Hel\<close>, \<open>lo\<close>; the only readable file
  is \<open>cat.png\<close>.
\<close>

definition mock :: "string \<Rightarrow> backend" where
  "mock answer =
     \<lparr>new_client = (\<lambda>m. None),
      read_file = (\<lambda>p. if p = ''cat.png'' then Inr ''PNG'' else Inl (OSError p)),
      b64encode = (\<lambda>bytes. if bytes = ''PNG'' then ''UE5H'' else []),
      invoke = (\<lambda>c msgs. case c of Client Router_model m \<Rightarrow> Inr answer | _ \<Rightarrow> Inr ''Hello''),
      open_stream = (\<lambda>c msgs. Inr ([Content_chunk ''Hel'', Plain_chunk ''lo''], None))\<rparr>"

definition router0 :: model_router where
  "router0 =
     \<lparr>general = Client General ''llama3.2:3b'',
      coding = Client Coding ''qwen2.5-coder:3b'',
      vision = Client Vision ''llava-phi3'',
      router_model = Client Router_model ''llama3.2:3b''\<rparr>"

definition no_files :: filesystem where
  "no_files = \<lparr>isfile = (\<lambda>p. False), abspath = (\<lambda>p. ''/srv/'' @ p),
               makedirs = (\<lambda>p. None), copy = (\<lambda>p q. None)\<rparr>"

section \<open>The regular-expression search finds the first whole word\<close>

lemma take_eq_hd: "take (length w) s = w \<Longrightarrow> w \<noteq> [] \<Longrightarrow> hd s = hd w"
  by (cases w; cases s) auto

lemma take_eq_nonempty: "take (length w) s = w \<Longrightarrow> w \<noteq> [] \<Longrightarrow> s \<noteq> []"
  by (cases w; cases s) auto

lemma after_boundary:
  assumes "is_word (last w)"
  shows "word_boundary (Some (last w)) (drop (length w) s)
           \<longleftrightarrow> (length s \<le> length w \<or> \<not> is_word (s ! length w))"
proof (cases "length s \<le> length w")
  case True
  then show ?thesis using assms by (simp add: word_boundary_def)
next
  case False
  then have "drop (length w) s = s ! length w # drop (Suc (length w)) s"
    by (simp add: Cons_nth_drop_Suc)
  then show ?thesis using assms False by (simp add: word_boundary_def)
qed

lemma labels_word:
  "w \<in> set LABELS \<Longrightarrow> w \<noteq> [] \<and> is_word (hd w) \<and> is_word (last w)"
  by (auto simp: LABELS_def is_word_def)

lemma labels_hd_inj:
  "v \<in> set LABELS \<Longrightarrow> w \<in> set LABELS \<Longrightarrow> hd v = hd w \<Longrightarrow> v = w"
  by (auto simp: LABELS_def)

lemma match_alternatives_Some:
  "match_alternatives ws s = Some w \<Longrightarrow>
     w \<in> set ws \<and> take (length w) s = w \<and> word_boundary (Some (last w)) (drop (length w) s)"
  by (induction ws) (auto split: if_splits)

lemma match_alternatives_first:
  assumes "w \<in> set ws" and t: "take (length w) s = w"
    and a: "word_boundary (Some (last w)) (drop (length w) s)"
    and "\<forall>v\<in>set ws. take (length v) s = v \<longrightarrow> v = w"
  shows "match_alternatives ws s = Some w"
  using assms(1,4)
proof (induction ws)
  case Nil
  then show ?case by simp
next
  case (Cons x xs)
  show ?case
  proof (cases "x = w")
    case True
    have "match_alternatives (w # xs) s = Some w"
      by (simp only: match_alternatives.simps t a simp_thms if_True)
    with True show ?thesis by simp
  next
    case False
    with Cons.prems(2) have n: "take (length x) s \<noteq> x" by auto
    from False Cons.prems(1) have "w \<in> set xs" by simp
    moreover from Cons.prems(2) have "\<forall>v\<in>set xs. take (length v) s = v \<longrightarrow> v = w" by simp
    ultimately have "match_alternatives xs s = Some w" by (rule Cons.IH)
    with n show ?thesis by simp
  qed
qed

lemma match_at_iff:
  "match_at prev s = Some w \<longleftrightarrow>
     w \<in> set LABELS \<and> take (length w) s = w
     \<and> \<not> (case prev of None \<Rightarrow> False | Some c \<Rightarrow> is_word c)
     \<and> (length s \<le> length w \<or> \<not> is_word (s ! length w))"
proof
  assume "match_at prev s = Some w"
  then have wb: "word_boundary prev s" and m: "match_alternatives LABELS s = Some w"
    by (auto simp: match_at_def split: if_splits)
  from match_alternatives_Some [OF m]
  have w: "w \<in> set LABELS" and t: "take (length w) s = w"
    and a: "word_boundary (Some (last w)) (drop (length w) s)" by auto
  from labels_word [OF w] have ne: "w \<noteq> []" and h: "is_word (hd w)" and l: "is_word (last w)"
    by auto
  from take_eq_hd [OF t ne] take_eq_nonempty [OF t ne] h have "s \<noteq> []" "is_word (hd s)" by auto
  with wb have "\<not> (case prev of None \<Rightarrow> False | Some c \<Rightarrow> is_word c)"
    by (cases s) (auto simp: word_boundary_def)
  with w t a after_boundary [OF l, of s]
  show "w \<in> set LABELS \<and> take (length w) s = w
     \<and> \<not> (case prev of None \<Rightarrow> False | Some c \<Rightarrow> is_word c)
     \<and> (length s \<le> length w \<or> \<not> is_word (s ! length w))" by simp
next
  assume r: "w \<in> set LABELS \<and> take (length w) s = w
     \<and> \<not> (case prev of None \<Rightarrow> False | Some c \<Rightarrow> is_word c)
     \<and> (length s \<le> length w \<or> \<not> is_word (s ! length w))"
  then have w: "w \<in> set LABELS" and t: "take (length w) s = w" by auto
  from labels_word [OF w] have ne: "w \<noteq> []" and h: "is_word (hd w)" and l: "is_word (last w)"
    by auto
  from take_eq_hd [OF t ne] take_eq_nonempty [OF t ne] h have "s \<noteq> []" "is_word (hd s)" by auto
  with r have wb: "word_boundary prev s"
    by (cases s) (auto simp: word_boundary_def)
  have a: "word_boundary (Some (last w)) (drop (length w) s)"
    using after_boundary [OF l, of s] r by simp
  have u: "\<forall>v\<in>set LABELS. take (length v) s = v \<longrightarrow> v = w"
  proof (intro ballI impI)
    fix v assume v: "v \<in> set LABELS" and tv: "take (length v) s = v"
    from labels_word [OF v] have "v \<noteq> []" by simp
    from take_eq_hd [OF tv this] take_eq_hd [OF t ne] have "hd v = hd w" by simp
    from labels_hd_inj [OF v w this] show "v = w" .
  qed
  from match_alternatives_first [OF w t a u] wb
  show "match_at prev s = Some w" by (simp add: match_at_def)
qed


lemma match_at_Nil: "match_at prev [] = None"
  by (simp add: match_at_def LABELS_def)

lemma before_Cons: "before prev (c # cs) (Suc i) = before (Some c) cs i"
  by (cases i) (simp_all add: before_def)

lemma re_search_None:
  "re_search prev s = None \<Longrightarrow> match_at (before prev s i) (drop i s) = None"
proof (induction s arbitrary: prev i)
  case Nil
  then show ?case by (simp add: match_at_Nil)
next
  case (Cons c cs)
  then have m: "match_at prev (c # cs) = None" and r: "re_search (Some c) cs = None"
    by (auto split: option.splits)
  show ?case
  proof (cases i)
    case 0
    with m show ?thesis by (simp add: before_def)
  next
    case (Suc j)
    with Cons.IH [OF r, of j] show ?thesis by (simp add: before_Cons)
  qed
qed

lemma re_search_Some:
  "re_search prev s = Some w \<Longrightarrow>
     \<exists>i. match_at (before prev s i) (drop i s) = Some w
        \<and> (\<forall>j<i. match_at (before prev s j) (drop j s) = None)"
proof (induction s arbitrary: prev)
  case Nil
  then show ?case by (simp add: match_at_Nil)
next
  case (Cons c cs)
  show ?case
  proof (cases "match_at prev (c # cs)")
    case (Some v)
    with Cons.prems have "v = w" by simp
    with Some have "match_at (before prev (c # cs) 0) (drop 0 (c # cs)) = Some w"
      by (simp add: before_def)
    then show ?thesis by blast
  next
    case None
    with Cons.prems have "re_search (Some c) cs = Some w" by simp
    from Cons.IH [OF this] obtain i where
      i: "match_at (before (Some c) cs i) (drop i cs) = Some w"
      and less: "\<forall>j<i. match_at (before (Some c) cs j) (drop j cs) = None" by blast
    have "match_at (before prev (c # cs) (Suc i)) (drop (Suc i) (c # cs)) = Some w"
      using i by (simp add: before_Cons)
    moreover have "\<forall>j<Suc i. match_at (before prev (c # cs) j) (drop j (c # cs)) = None"
    proof (intro allI impI)
      fix j assume "j < Suc i"
      show "match_at (before prev (c # cs) j) (drop j (c # cs)) = None"
      proof (cases j)
        case 0
        with None show ?thesis by (simp add: before_def)
      next
        case (Suc k)
        with \<open>j < Suc i\<close> less show ?thesis by (simp add: before_Cons)
      qed
    qed
    ultimately show ?thesis by blast
  qed
qed


lemma before_None_word:
  "(\<not> (case before None s i of None \<Rightarrow> False | Some c \<Rightarrow> is_word c))
     = (i = 0 \<or> \<not> is_word (s ! (i - 1)))"
  by (simp add: before_def)

lemma after_drop:
  "(length (drop i s) \<le> length w \<or> \<not> is_word (drop i s ! length w))
     = (length s \<le> i + length w \<or> \<not> is_word (s ! (i + length w)))"
proof (cases "i + length w < length s")
  case True
  then have "drop i s ! length w = s ! (i + length w)" by simp
  moreover from True have "\<not> length (drop i s) \<le> length w" by simp
  ultimately show ?thesis using True by simp
next
  case False
  then have "length (drop i s) \<le> length w" by simp
  with False show ?thesis by simp
qed

lemma hit_iff:
  "match_at (before None s i) (drop i s) = Some w \<longleftrightarrow> w \<in> set LABELS \<and> whole_word_at s i w"
  unfolding match_at_iff whole_word_at_def before_None_word after_drop by (rule refl)

section \<open>Properties of the classifier\<close>

lemmas discipline_defs =
  and_then_def try_log_raise_def log_def return_def call_invoke_def call_stream_def

lemma classify_value:
  assumes "invoke b (router_model r) [Human_text (classify_prompt text)] = Inr result"
  shows "snd (classify b r text) =
           Inr (case re_search None (lower result) of
                  Some label \<Rightarrow> label
                | None \<Rightarrow> lower (strip result))"
  using assms by (simp add: classify_def discipline_defs split: option.splits)

text \<open>
  C5.  Given the backend's response to the classification prompt, the classifier returns
  the label of the first whole-word occurrence of \<open>general\<close>, \<open>coding\<close> or \<open>vision\<close>
  in the lowercased response (an occurrence inside a longer word, as in \<open>uncoding\<close>,
  does not count); when there is no such occurrence it returns the trimmed, lowercased
  response, and it raises in neither case.
\<close>

theorem classify_first_whole_word:
  assumes "invoke b (router_model r) [Human_text (classify_prompt text)] = Inr result"
  shows "(\<forall>i w. w \<in> set LABELS \<and> whole_word_at (lower result) i w
              \<and> (\<forall>j<i. \<forall>v\<in>set LABELS. \<not> whole_word_at (lower result) j v)
            \<longrightarrow> snd (classify b r text) = Inr w)
       \<and> ((\<forall>i. \<forall>w\<in>set LABELS. \<not> whole_word_at (lower result) i w)
            \<longrightarrow> snd (classify b r text) = Inr (lower (strip result)))"
proof (cases "re_search None (lower result)")
  case None
  have no: "\<not> whole_word_at (lower result) i w" if "w \<in> set LABELS" for i w
  proof
    assume "whole_word_at (lower result) i w"
    with that have "match_at (before None (lower result) i) (drop i (lower result)) = Some w"
      by (simp add: hit_iff)
    with re_search_None [OF None, of i] show False by simp
  qed
  from None classify_value [OF assms]
  have "snd (classify b r text) = Inr (lower (strip result))" by simp
  with no show ?thesis by blast
next
  case (Some w0)
  from re_search_Some [OF Some] obtain i0 where
    hit: "match_at (before None (lower result) i0) (drop i0 (lower result)) = Some w0"
    and first: "\<forall>j<i0. match_at (before None (lower result) j) (drop j (lower result)) = None"
    by blast
  from hit have w0: "w0 \<in> set LABELS" and at0: "whole_word_at (lower result) i0 w0"
    by (simp_all add: hit_iff)
  from Some classify_value [OF assms] have val: "snd (classify b r text) = Inr w0" by simp
  have one: "w = w0"
    if w: "w \<in> set LABELS" and at: "whole_word_at (lower result) i w"
      and least: "\<forall>j<i. \<forall>v\<in>set LABELS. \<not> whole_word_at (lower result) j v" for i w
  proof -
    from w at have h: "match_at (before None (lower result) i) (drop i (lower result)) = Some w"
      by (simp add: hit_iff)
    have "\<not> i < i0"
    proof
      assume "i < i0"
      with first have "match_at (before None (lower result) i) (drop i (lower result)) = None"
        by simp
      with h show False by simp
    qed
    moreover have "\<not> i0 < i"
    proof
      assume "i0 < i"
      with least w0 have "\<not> whole_word_at (lower result) i0 w0" by simp
      with at0 show False by simp
    qed
    ultimately have "i = i0" by simp
    with h hit show "w = w0" by simp
  qed
  from w0 at0 have "\<not> (\<forall>i. \<forall>w\<in>set LABELS. \<not> whole_word_at (lower result) i w)" by blast
  with one val show ?thesis by blast
qed

lemma mock_classifier:
  "invoke (mock answer) (router_model router0) [Human_text (classify_prompt text)] = Inr answer"
  by (simp add: mock_def router0_def)

lemma lower_example_1: "re_search None (lower ''It is CODING, not general'') = Some ''coding''"
  by code_simp

lemma lower_example_2: "re_search None (lower '' UNcoding '') = None"
  by code_simp

lemma lower_example_3: "lower (strip '' UNcoding '') = ''uncoding''"
  by code_simp

theorem classify_first_whole_word_witness:
  "snd (classify (mock ''It is CODING, not general'') router0 ''q'') = Inr ''coding''
   \<and> snd (classify (mock '' UNcoding '') router0 ''q'') = Inr ''uncoding''"
proof
  let ?s = "lower ''It is CODING, not general''"
  from re_search_Some [OF lower_example_1] obtain i where
    hit: "match_at (before None ?s i) (drop i ?s) = Some ''coding''"
    and first: "\<forall>j<i. match_at (before None ?s j) (drop j ?s) = None" by blast
  from hit have "''coding'' \<in> set LABELS" and "whole_word_at ?s i ''coding''"
    by (simp_all add: hit_iff)
  moreover have "\<forall>j<i. \<forall>v\<in>set LABELS. \<not> whole_word_at ?s j v"
  proof (intro allI impI ballI)
    fix j v assume "j < i" and v: "v \<in> set LABELS"
    with first have "match_at (before None ?s j) (drop j ?s) = None" by simp
    then have "match_at (before None ?s j) (drop j ?s) \<noteq> Some v" by simp
    with v show "\<not> whole_word_at ?s j v" by (simp add: hit_iff)
  qed
  ultimately show "snd (classify (mock ''It is CODING, not general'') router0 ''q'') = Inr ''coding''"
    using classify_first_whole_word [OF mock_classifier, of "''It is CODING, not general''" "''q''"]
    by blast
next
  let ?s = "lower '' UNcoding ''"
  have "\<forall>i. \<forall>w\<in>set LABELS. \<not> whole_word_at ?s i w"
  proof (intro allI ballI)
    fix i w assume w: "w \<in> set LABELS"
    from re_search_None [OF lower_example_2, of i]
    have "match_at (before None ?s i) (drop i ?s) \<noteq> Some w" by simp
    with w show "\<not> whole_word_at ?s i w" by (simp add: hit_iff)
  qed
  then have "snd (classify (mock '' UNcoding '') router0 ''q'') = Inr (lower (strip '' UNcoding ''))"
    using classify_first_whole_word [OF mock_classifier, of "'' UNcoding ''" "''q''"]
    by blast
  then show "snd (classify (mock '' UNcoding '') router0 ''q'') = Inr ''uncoding''"
    by (simp only: lower_example_3)
qed

section \<open>Properties of router construction\<close>

text \<open>
  C10.  Constructing a router from a configuration that lacks the key \<open>MODEL_GENERAL\<close>
  never succeeds.  The three role bindings are constructed first, the general one with
  the default name \<open>llama3.2:3b\<close>; when these three constructions succeed, the models are
  reported as loaded and construction then raises \<open>KeyError\<close> for \<open>MODEL_GENERAL\<close>.
\<close>

theorem load_models_without_model_general:
  assumes "cfg ''MODEL_GENERAL'' = None"
  shows "(\<exists>e. snd (load_models b cfg) = Inl e) \<and>
         (new_client b ''llama3.2:3b'' = None \<and>
          new_client b (cfg_get cfg ''MODEL_CODING'') = None \<and>
          new_client b (cfg_get cfg ''MODEL_VISION'') = None \<longrightarrow>
          load_models b cfg =
            ([New_client ''llama3.2:3b'',
              New_client (cfg_get cfg ''MODEL_CODING''),
              New_client (cfg_get cfg ''MODEL_VISION''),
              Log Info (Fmt ''Models loaded: general={}, coding={}, vision={}.''
                [A_str ''llama3.2:3b'', A_str (cfg_get cfg ''MODEL_CODING''),
                 A_str (cfg_get cfg ''MODEL_VISION'')])],
             Inl (KeyError ''MODEL_GENERAL'')))"
proof -
  have g: "cfg_get cfg ''MODEL_GENERAL'' = ''llama3.2:3b''"
    using assms by (simp add: cfg_get_def DEFAULTS_def)
  have i: "cfg_item cfg ''MODEL_GENERAL'' = Inl (KeyError ''MODEL_GENERAL'')"
    using assms by (simp add: cfg_item_def)
  show ?thesis
    unfolding load_models_def g i
    by (auto simp: Let_def split: prod.splits option.splits)
qed

theorem load_models_without_model_general_witness:
  "Map.empty ''MODEL_GENERAL'' = (None :: string option) \<and>
   new_client (mock ''general'') ''llama3.2:3b'' = None \<and>
   new_client (mock ''general'') (cfg_get Map.empty ''MODEL_CODING'') = None \<and>
   new_client (mock ''general'') (cfg_get Map.empty ''MODEL_VISION'') = None \<and>
   load_models (mock ''general'') Map.empty =
     ([New_client ''llama3.2:3b'', New_client ''qwen2.5-coder:3b'', New_client ''llava-phi3'',
       Log Info (Fmt ''Models loaded: general={}, coding={}, vision={}.''
         [A_str ''llama3.2:3b'', A_str ''qwen2.5-coder:3b'', A_str ''llava-phi3''])],
      Inl (KeyError ''MODEL_GENERAL''))"
  using load_models_without_model_general [of Map.empty "mock ''general''"]
  by (simp add: mock_def cfg_get_def DEFAULTS_def)

end
